theory Spec2Isabelle
  imports Main "HOL-Library.AList"
begin

section \<open>Strings\<close>

text \<open>
  A Python \<open>str\<close> is modelled as a \<open>string\<close>. Every character the program tests for is
  ASCII, so the functions below compare single characters only.
\<close>

definition startswith :: "string \<Rightarrow> string \<Rightarrow> bool" where
  \<comment> \<open>\<open>s.startswith(p)\<close>\<close>
  "startswith s p \<longleftrightarrow> take (length p) s = p"

fun split_where :: "(char \<Rightarrow> bool) \<Rightarrow> string \<Rightarrow> string list" where
  \<comment> \<open>\<open>s.split(c)\<close> and \<open>re.split\<close> on a one-character class: cut at every separator,
      keeping the empty fields\<close>
  "split_where P [] = [[]]"
| "split_where P (c # cs) =
     (if P c then [] # split_where P cs
      else (case split_where P cs of
              [] \<Rightarrow> [[c]]
            | w # ws \<Rightarrow> (c # w) # ws))"

definition first_field :: "(char \<Rightarrow> bool) \<Rightarrow> string \<Rightarrow> string" where
  \<comment> \<open>element \<open>[0]\<close> of a split; a split is never empty, the \<open>[]\<close> case is unreachable\<close>
  "first_field P s = (case split_where P s of [] \<Rightarrow> [] | w # ws \<Rightarrow> w)"

definition replace_char :: "char \<Rightarrow> char \<Rightarrow> string \<Rightarrow> string" where
  \<comment> \<open>\<open>s.replace(a, b)\<close> for one-character \<open>a\<close> and \<open>b\<close>\<close>
  "replace_char a b s = map (\<lambda>c. if c = a then b else c) s"

definition newline :: char where
  "newline = CHR 0x0A"

section \<open>Package specifications\<close>

datatype package_type = Git | Local | Pypi

definition detect_package_type :: "string \<Rightarrow> package_type" where
  "detect_package_type package_spec =
     (if startswith package_spec ''git+'' then Git
      else if (startswith package_spec ''/'' \<or> startswith package_spec ''./''
               \<or> startswith package_spec ''../'')
              \<or> startswith package_spec ''-e'' then Local
      else Pypi)"

subsection \<open>The pattern \<open>FastMCP\(["\']([^"\']*)["\']\<close>\<close>

definition quote :: "char \<Rightarrow> bool" where
  \<comment> \<open>the class \<open>["\']\<close>: double or single quote\<close>
  "quote c \<longleftrightarrow> c = CHR 0x22 \<or> c = CHR 0x27"

definition fastmcp_here :: "string \<Rightarrow> string option" where
  \<comment> \<open>the pattern anchored at the head of \<open>s\<close>: the literal, an opening quote, the
      longest run of non-quotes (the class also takes newlines), a closing quote. A
      shorter run is followed by a non-quote, so backtracking finds nothing more.\<close>
  "fastmcp_here s =
     (if startswith s ''FastMCP('' then
        (case drop 8 s of
           [] \<Rightarrow> None
         | q # r \<Rightarrow>
             if quote q \<and> dropWhile (\<lambda>c. \<not> quote c) r \<noteq> []
             then Some (takeWhile (\<lambda>c. \<not> quote c) r) else None)
      else None)"

fun fastmcp_search :: "string \<Rightarrow> string option" where
  \<comment> \<open>\<open>re.search\<close>: the leftmost position where the pattern matches; the result is
      \<open>match.group(1)\<close>\<close>
  "fastmcp_search [] = None"
| "fastmcp_search (c # cs) =
     (case fastmcp_here (c # cs) of
        Some n \<Rightarrow> Some n
      | None \<Rightarrow> fastmcp_search cs)"

subsection \<open>The pattern \<open>/([^/]+?)(?:\.git)?(?:#.*)?$\<close>\<close>

definition dollar :: "string \<Rightarrow> bool" where
  \<comment> \<open>\<open>$\<close> without MULTILINE: at the end of the string, or before a newline that is
      the last character\<close>
  "dollar t \<longleftrightarrow> t = [] \<or> t = [newline]"

definition frag_end :: "string \<Rightarrow> bool" where
  \<comment> \<open>\<open>(?:#.*)?$\<close>: \<open>.\<close> takes every character but a newline, so after \<open>#\<close> the
      rest up to the first newline must reach \<open>$\<close>\<close>
  "frag_end t \<longleftrightarrow>
     (case t of
        [] \<Rightarrow> False
      | c # r \<Rightarrow> c = CHR ''#'' \<and> dollar (dropWhile (\<lambda>x. x \<noteq> newline) r))
     \<or> dollar t"

definition git_tail :: "string \<Rightarrow> bool" where
  \<comment> \<open>\<open>(?:\.git)?(?:#.*)?$\<close>\<close>
  "git_tail t \<longleftrightarrow> (startswith t ''.git'' \<and> frag_end (drop 4 t)) \<or> frag_end t"

fun lazy_group :: "string \<Rightarrow> string \<Rightarrow> string option" where
  \<comment> \<open>\<open>([^/]+?)\<close> with \<open>acc\<close> already taken: stop at the first length where the tail
      matches, else take one more character that is not a slash\<close>
  "lazy_group acc [] = (if git_tail [] then Some acc else None)"
| "lazy_group acc (c # cs) =
     (if git_tail (c # cs) then Some acc
      else if c = CHR ''/'' then None
      else lazy_group (acc @ [c]) cs)"

fun git_here :: "string \<Rightarrow> string option" where
  \<comment> \<open>the pattern after its leading slash: the group takes at least one character\<close>
  "git_here [] = None"
| "git_here (c # cs) = (if c = CHR ''/'' then None else lazy_group [c] cs)"

fun git_search :: "string \<Rightarrow> string option" where
  \<comment> \<open>\<open>re.search\<close>: the leftmost slash from which the pattern matches\<close>
  "git_search [] = None"
| "git_search (c # cs) =
     (if c = CHR ''/'' then
        (case git_here cs of
           Some g \<Rightarrow> Some g
         | None \<Rightarrow> git_search cs)
      else git_search cs)"

subsection \<open>\<open>Path(package_spec).stem\<close>\<close>

definition path_parts :: "string \<Rightarrow> string list" where
  \<comment> \<open>the components of a POSIX path after its root: empty ones and \<open>.\<close> are dropped\<close>
  "path_parts s = filter (\<lambda>x. x \<noteq> [] \<and> x \<noteq> ''.'') (split_where (\<lambda>c. c = CHR ''/'') s)"

definition path_name :: "string \<Rightarrow> string" where
  "path_name s = (case rev (path_parts s) of [] \<Rightarrow> [] | n # ns \<Rightarrow> n)"

definition rfind_dot :: "string \<Rightarrow> nat option" where
  \<comment> \<open>\<open>name.rfind('.')\<close>, \<open>None\<close> for -1\<close>
  "rfind_dot n =
     (if CHR ''.'' \<in> set n
      then Some (length n - 1 - length (takeWhile (\<lambda>c. c \<noteq> CHR ''.'') (rev n)))
      else None)"

definition path_stem :: "string \<Rightarrow> string" where
  \<comment> \<open>the final component without its last suffix: cut at the last dot when the dot is
      neither the first nor the last character of the name\<close>
  "path_stem s =
     (let name = path_name s in
      case rfind_dot name of
        None \<Rightarrow> name
      | Some i \<Rightarrow> if 0 < i \<and> i < length name - 1 then take i name else name)"

subsection \<open>Server names\<close>

datatype exn = OSError string | UnicodeDecodeError | JSONDecodeError | TypeError | KeyError

text \<open>
  An exception is a value: \<open>OSError\<close> carries the operating system's message, the
  others are the interpreter's own. What the program prints is a list of \<open>printed\<close>
  lines, one constructor for each message of the source, carrying the values its
  f-string interpolates.
\<close>

type_synonym path = "string list"

datatype printed =
    Warning_Could_not_read_file string exn
  | Error_updating_config_file path exn
  | Unknown_argument string
  | Usage

record local_file =
  file_path :: string
  file_exists :: "exn + bool"
  read_text :: "exn + string"

text \<open>
  \<open>file_path\<close> is the path as given. \<open>file_exists\<close> is what \<open>filepath.exists()\<close>
  does: \<open>Inr\<close> its answer, or \<open>Inl\<close> the exception it raises (a directory that may
  not be searched, for one). \<open>read_text\<close> is what
  \<open>filepath.read_text(encoding="utf-8")\<close> does: \<open>Inr\<close> the content, or \<open>Inl\<close> the
  exception it raises. \<open>extract_server_name\<close> returns the lines it prints and the
  name, or \<open>Inl\<close> the exception that leaves it: line 35 is outside the \<open>try\<close>.
\<close>

definition version_op :: "char \<Rightarrow> bool" where
  \<comment> \<open>the class \<open>[><=!~]\<close>\<close>
  "version_op c \<longleftrightarrow> c \<in> set ''><=!~''"

definition spec_name :: "string \<Rightarrow> string" where
  \<comment> \<open>the fallback of \<open>extract_server_name\<close>, from the package spec alone\<close>
  "spec_name package_spec =
     (if detect_package_type package_spec = Pypi then
        replace_char CHR ''_'' CHR ''-'' (replace_char CHR ''-'' CHR ''_''
          (first_field version_op (first_field (\<lambda>c. c = CHR ''['') package_spec)))
      else if startswith package_spec ''git+'' then
        (case git_search package_spec of
           Some g \<Rightarrow> g
         | None \<Rightarrow> package_spec)
      else if CHR ''/'' \<in> set package_spec then path_stem package_spec
      else package_spec)"

definition extract_server_name ::
  "string \<Rightarrow> local_file option \<Rightarrow> exn + printed list \<times> string" where
  "extract_server_name package_spec filepath =
     (case filepath of
        None \<Rightarrow> Inr ([], spec_name package_spec)
      | Some f \<Rightarrow>
          (case file_exists f of
             Inl x \<Rightarrow> Inl x
           | Inr there \<Rightarrow>
               if there then
                 (case read_text f of
                    Inr content \<Rightarrow>
                      (case fastmcp_search content of
                         Some n \<Rightarrow> Inr ([], n)
                       | None \<Rightarrow> Inr ([], spec_name package_spec))
                  | Inl e \<Rightarrow>
                      Inr ([Warning_Could_not_read_file (file_path f) e],
                           spec_name package_spec))
               else Inr ([], spec_name package_spec)))"

section \<open>The configuration document\<close>

datatype json =
    JNull
  | JBool bool
  | JInt int
  | JFloat string
  | JStr string
  | JArr "json list"
  | JObj "(string \<times> json) list"

text \<open>
  What \<open>json.loads\<close> returns. A \<open>dict\<close> is an association list in insertion order;
  \<open>AList.update\<close> is \<open>d[k] = v\<close>: it replaces the value in place when the key is
  there and appends the pair when it is not. A float is kept as its literal.
\<close>

definition bind :: "exn + 'a \<Rightarrow> ('a \<Rightarrow> exn + 'b) \<Rightarrow> exn + 'b" where
  \<comment> \<open>sequencing: the first exception ends the run\<close>
  "bind m f = (case m of Inl e \<Rightarrow> Inl e | Inr x \<Rightarrow> f x)"

definition substring :: "string \<Rightarrow> string \<Rightarrow> bool" where
  "substring k s \<longleftrightarrow> list_ex (\<lambda>i. startswith (drop i s) k) [0..<Suc (length s)]"

fun py_contains :: "json \<Rightarrow> string \<Rightarrow> exn + bool" where
  \<comment> \<open>\<open>k in x\<close> for a string \<open>k\<close>: a key of a dict, an element of a list, a substring
      of a string; the other values are not iterable\<close>
  "py_contains (JObj kvs) k = Inr (map_of kvs k \<noteq> None)"
| "py_contains (JArr xs) k = Inr (JStr k \<in> set xs)"
| "py_contains (JStr s) k = Inr (substring k s)"
| "py_contains x k = Inl TypeError"

fun py_getitem :: "json \<Rightarrow> string \<Rightarrow> exn + json" where
  \<comment> \<open>\<open>x[k]\<close> for a string \<open>k\<close>\<close>
  "py_getitem (JObj kvs) k = (case map_of kvs k of None \<Rightarrow> Inl KeyError | Some v \<Rightarrow> Inr v)"
| "py_getitem x k = Inl TypeError"

fun py_setitem :: "json \<Rightarrow> string \<Rightarrow> json \<Rightarrow> exn + json" where
  \<comment> \<open>\<open>x[k] = v\<close> for a string \<open>k\<close>; only a dict takes it\<close>
  "py_setitem (JObj kvs) k v = Inr (JObj (AList.update k v kvs))"
| "py_setitem x k v = Inl TypeError"

definition default_config :: json where
  "default_config = JObj [(''mcpServers'', JObj [])]"

definition package_type_str :: "package_type \<Rightarrow> string" where
  "package_type_str t = (case t of Git \<Rightarrow> ''git'' | Local \<Rightarrow> ''local'' | Pypi \<Rightarrow> ''pypi'')"

definition metadata :: "string \<Rightarrow> json" where
  "metadata package_spec =
     JObj [(''package_type'', JStr (package_type_str (detect_package_type package_spec))),
           (''package_spec'', JStr package_spec),
           (''generated_by'', JStr ''mcp_config.py''),
           (''bootstrap_version'', JStr ''1.2.0'')]"

definition server_entry :: "string \<Rightarrow> string \<Rightarrow> string list option \<Rightarrow> json" where
  \<comment> \<open>the entry of lines 110 to 118: \<open>server_args\<close> is appended when it is neither
      \<open>None\<close> nor empty\<close>
  "server_entry bootstrap_script package_spec server_args =
     (let args = [bootstrap_script, package_spec];
          args = (case server_args of None \<Rightarrow> args | Some xs \<Rightarrow> if xs \<noteq> [] then args @ xs else args)
      in JObj [(''command'', JStr ''bash''), (''args'', JArr (map JStr args))])"

definition update_config :: "string \<Rightarrow> string \<Rightarrow> string \<Rightarrow> string list option \<Rightarrow> json \<Rightarrow> exn + json" where
  \<comment> \<open>lines 102 to 127 of \<open>create_or_update_config\<close>, on the loaded \<open>config_data\<close>.
      The inner dict is mutated through the outer one; here it is read, changed and
      stored back under the same key.\<close>
  "update_config server_name package_spec bootstrap_script server_args config_data =
     bind (py_contains config_data ''mcpServers'') (\<lambda>present.
     bind (if \<not> present then py_setitem config_data ''mcpServers'' (JObj []) else Inr config_data)
       (\<lambda>config_data.
     bind (py_getitem config_data ''mcpServers'') (\<lambda>servers.
     bind (py_setitem servers server_name
             (server_entry bootstrap_script package_spec server_args)) (\<lambda>servers.
     bind (py_contains servers server_name) (\<lambda>named.
     bind (if \<not> named then Inr True
           else bind (py_getitem servers server_name) (\<lambda>entry.
                bind (py_contains entry ''_metadata'') (\<lambda>has. Inr (\<not> has)))) (\<lambda>attach.
     bind (if attach then
             bind (py_getitem servers server_name) (\<lambda>entry.
             bind (py_setitem entry ''_metadata'' (metadata package_spec)) (\<lambda>entry.
             py_setitem servers server_name entry))
           else Inr servers) (\<lambda>servers.
     py_setitem config_data ''mcpServers'' servers)))))))"

section \<open>Storage\<close>

datatype content = Doc json | Malformed string | Truncated json

text \<open>
  A file holds text. \<open>Doc d\<close> is the text \<open>json.dumps\<close> writes for \<open>d\<close>, which
  \<open>json.loads\<close> reads back as \<open>d\<close>; \<open>Malformed\<close> is text that does not parse;
  \<open>Truncated d\<close> is a proper prefix of the text of \<open>d\<close>, left by a write that failed.
\<close>

record fs =
  files :: "path \<rightharpoonup> content"
  dirs :: "path set"

datatype write_fault = OpenFails exn | WriteFails exn

record env =
  bootstrap_script :: string
  tmp_name :: string
  mkdir_fault :: "exn option"
  seed_fault :: "write_fault option"
  read_fault :: "exn option"
  tmp_fault :: "exn option"
  dump_fault :: "exn option"
  replace_fault :: "exn option"

text \<open>
  The environment of one run: \<open>bootstrap_script\<close> is what
  \<open>str(get_bootstrap_script_path())\<close> gives, \<open>tmp_name\<close> the name
  \<open>NamedTemporaryFile\<close> draws, and each fault, when set, is the exception the operating
  system raises at that call (permissions, a full disk, a missing volume).
\<close>

definition quiet :: "string \<Rightarrow> string \<Rightarrow> env" where
  \<comment> \<open>a run in which no call fails\<close>
  "quiet script name =
     \<lparr>bootstrap_script = script, tmp_name = name, mkdir_fault = None, seed_fault = None,
      read_fault = None, tmp_fault = None, dump_fault = None, replace_fault = None\<rparr>"

definition parent :: "path \<Rightarrow> path" where
  "parent p = butlast p"

definition path_exists :: "fs \<Rightarrow> path \<Rightarrow> bool" where
  \<comment> \<open>\<open>p.exists()\<close>: a file or a directory is there\<close>
  "path_exists s p = (case files s p of None \<Rightarrow> p \<in> dirs s | Some c \<Rightarrow> True)"

definition above :: "path \<Rightarrow> path list" where
  \<comment> \<open>every directory above \<open>p\<close>, from the root down\<close>
  "above p = map (\<lambda>n. take n p) [0..<length p]"

definition ancestors :: "path \<Rightarrow> path list" where
  \<comment> \<open>the directory and every directory above it\<close>
  "ancestors p = above p @ [p]"

definition mkdir_parents :: "path \<Rightarrow> fs \<Rightarrow> exn + fs" where
  \<comment> \<open>\<open>mkdir(parents=True, exist_ok=True)\<close>: a file above the directory makes the
      path walk fail, a file at the directory itself is not a directory that exists\<close>
  "mkdir_parents d s =
     (if list_ex (\<lambda>q. files s q \<noteq> None) (above d) then Inl (OSError ''NotADirectoryError'')
      else if files s d \<noteq> None then Inl (OSError ''FileExistsError'')
      else Inr (s\<lparr>dirs := dirs s \<union> set (ancestors d)\<rparr>))"

definition write_file :: "path \<Rightarrow> content \<Rightarrow> fs \<Rightarrow> fs" where
  "write_file p c s = s\<lparr>files := (files s)(p \<mapsto> c)\<rparr>"

definition seed_config :: "env \<Rightarrow> path \<Rightarrow> fs \<Rightarrow> (exn + unit) \<times> fs" where
  \<comment> \<open>lines 94 to 97: create the default config if the file does not exist\<close>
  "seed_config e config_file s =
     (if \<not> path_exists s config_file then
        (case mkdir_fault e of
           Some x \<Rightarrow> (Inl x, s)
         | None \<Rightarrow>
            (case mkdir_parents (parent config_file) s of
               Inl x \<Rightarrow> (Inl x, s)
             | Inr s \<Rightarrow>
                (case seed_fault e of
                   Some (OpenFails x) \<Rightarrow> (Inl x, s)
                 | Some (WriteFails x) \<Rightarrow>
                     (Inl x, write_file config_file (Truncated default_config) s)
                 | None \<Rightarrow> (Inr (), write_file config_file (Doc default_config) s))))
      else (Inr (), s))"

definition load_json :: "env \<Rightarrow> path \<Rightarrow> fs \<Rightarrow> exn + json" where
  \<comment> \<open>line 100: \<open>json.loads(config_file.read_text(encoding="utf-8"))\<close>\<close>
  "load_json e config_file s =
     (case read_fault e of
        Some x \<Rightarrow> Inl x
      | None \<Rightarrow>
         (case files s config_file of
            None \<Rightarrow>
              Inl (OSError (if config_file \<in> dirs s then ''IsADirectoryError''
                            else ''FileNotFoundError''))
          | Some (Doc d) \<Rightarrow> Inr d
          | Some (Malformed t) \<Rightarrow> Inl JSONDecodeError
          | Some (Truncated d) \<Rightarrow> Inl JSONDecodeError))"

definition load_config :: "env \<Rightarrow> path \<Rightarrow> fs \<Rightarrow> (exn + json) \<times> fs" where
  \<comment> \<open>the load step, lines 93 to 100\<close>
  "load_config e config_file s =
     (case seed_config e config_file s of
        (Inl x, s) \<Rightarrow> (Inl x, s)
      | (Inr u, s) \<Rightarrow> (load_json e config_file s, s))"

definition replace_file :: "path \<Rightarrow> path \<Rightarrow> fs \<Rightarrow> fs" where
  \<comment> \<open>\<open>src.replace(dst)\<close>: one rename; the source name is gone, the target holds
      what the source held\<close>
  "replace_file src dst s = s\<lparr>files := ((files s)(src := None))(dst := files s src)\<rparr>"

definition persist :: "env \<Rightarrow> path \<Rightarrow> json \<Rightarrow> fs \<Rightarrow> (exn + unit) \<times> fs" where
  \<comment> \<open>lines 130 to 135. The temporary file is opened exclusively under a name that
      is not in use, in \<open>config_file.parent\<close>; a failing \<open>json.dump\<close> leaves it
      truncated; \<open>delete=False\<close> keeps it.\<close>
  "persist e config_file config_data s =
     (let tmp_path = parent config_file @ [tmp_name e] in
      case tmp_fault e of
        Some x \<Rightarrow> (Inl x, s)
      | None \<Rightarrow>
         if path_exists s tmp_path then (Inl (OSError ''FileExistsError''), s)
         else
           (case dump_fault e of
              Some x \<Rightarrow> (Inl x, write_file tmp_path (Truncated config_data) s)
            | None \<Rightarrow>
               (let s = write_file tmp_path (Doc config_data) s in
                case replace_fault e of
                  Some x \<Rightarrow> (Inl x, s)
                | None \<Rightarrow>
                   if config_file \<in> dirs s then (Inl (OSError ''IsADirectoryError''), s)
                   else (Inr (), replace_file tmp_path config_file s))))"

definition create_or_update_config ::
  "env \<Rightarrow> string \<Rightarrow> string \<Rightarrow> path \<Rightarrow> string list option \<Rightarrow> fs \<Rightarrow> bool \<times> printed list \<times> fs" where
  \<comment> \<open>the whole of the \<open>try\<close>; the handler prints the exception and returns False\<close>
  "create_or_update_config e server_name package_spec config_file server_args s =
     (case load_config e config_file s of
        (Inl x, s) \<Rightarrow> (False, [Error_updating_config_file config_file x], s)
      | (Inr config_data, s) \<Rightarrow>
         (case update_config server_name package_spec (bootstrap_script e) server_args
                 config_data of
            Inl x \<Rightarrow> (False, [Error_updating_config_file config_file x], s)
          | Inr config_data \<Rightarrow>
             (case persist e config_file config_data s of
                (Inl x, s) \<Rightarrow> (False, [Error_updating_config_file config_file x], s)
              | (Inr u, s) \<Rightarrow> (True, [], s))))"

section \<open>The command line\<close>

record options =
  server_name :: "string option"
  config_file_name :: "string option"
  server_args :: "string list"

function parse_loop :: "string list \<Rightarrow> nat \<Rightarrow> options \<Rightarrow> printed list \<times> (nat + options)" where
  \<comment> \<open>the \<open>while\<close> loop of \<open>parse_args\<close>; \<open>Inl n\<close> is \<open>sys.exit(n)\<close>\<close>
  "parse_loop args i st =
     (if i < length args then
        (if args ! i = ''--name'' \<and> i + 1 < length args then
           parse_loop args (i + 2) (st\<lparr>server_name := Some (args ! (i + 1))\<rparr>)
         else if args ! i = ''--config'' \<and> i + 1 < length args then
           parse_loop args (i + 2) (st\<lparr>config_file_name := Some (args ! (i + 1))\<rparr>)
         else if args ! i = ''--args'' \<and> i + 1 < length args then
           parse_loop args (i + 2)
             (st\<lparr>server_args := split_where (\<lambda>c. c = CHR '','') (args ! (i + 1))\<rparr>)
         else ([Unknown_argument (args ! i)], Inl 1))
      else ([], Inr st))"
  by pat_completeness auto
termination
  by (relation "measure (\<lambda>(args, i, st). length args - i)") auto

declare parse_loop.simps [simp del]

definition parse_args ::
  "string \<Rightarrow> string list \<Rightarrow> printed list \<times> (nat + string \<times> string option \<times> string \<times> string list)" where
  \<comment> \<open>\<open>args\<close> is \<open>sys.argv[1:]\<close>; \<open>default_path\<close> is the expanded default config
      path. The result is the tuple returned, or the exit status.\<close>
  "parse_args default_path args =
     (if args = [] \<or> ''--help'' \<in> set args \<or> ''-h'' \<in> set args then
        ([Usage], Inl (if args \<noteq> [] then 0 else 1))
      else
        (case parse_loop args 1
                \<lparr>server_name = None, config_file_name = None, server_args = []\<rparr> of
           (out, Inl n) \<Rightarrow> (out, Inl n)
         | (out, Inr st) \<Rightarrow>
             (out, Inr (args ! 0, server_name st,
                        (case config_file_name st of
                           None \<Rightarrow> default_path
                         | Some c \<Rightarrow> if c = [] then default_path else c),
                        server_args st))))"

section \<open>Executable names\<close>











section \<open>Classification\<close>

text \<open>
  C10: every spec whose first two characters are \<open>-e\<close> is classified local, whatever
  follows, so \<open>-experimental-package\<close> is local and not a package-index name.
\<close>

theorem editable_marker_is_local:
  "detect_package_type (''-e'' @ rest) = Local
   \<and> detect_package_type ''-experimental-package'' = Local"
  by (simp add: detect_package_type_def startswith_def)

subsection \<open>The version-control pattern\<close>

text \<open>
  What the search of \<open>/([^/]+?)(?:\.git)?(?:#.*)?$\<close> finds: no match starts at a slash
  that is followed by another slash before any \<open>#\<close>, and in the last segment the lazy
  group stops where what is left is \<open>.git\<close> or nothing, up to the fragment.
\<close>

lemma dollar_append:
  assumes "x \<noteq> []" "newline \<notin> set x"
  shows "\<not> dollar (x @ t)"
  using assms by (cases x) (auto simp: dollar_def)

lemma frag_end_fragment:
  assumes "fragment = [] \<or> fragment = CHR ''#'' # frag" "newline \<notin> set frag"
  shows "frag_end fragment"
proof -
  have "dropWhile (\<lambda>x. x \<noteq> newline) frag = []"
    using assms(2) by (induction frag) auto
  then show ?thesis
    using assms(1) by (auto simp: frag_end_def dollar_def)
qed

lemma frag_end_append:
  assumes "x \<noteq> []" "CHR ''#'' \<notin> set x" "newline \<notin> set x"
  shows "\<not> frag_end (x @ t)"
  using assms dollar_append [OF assms(1,3), of t]
  by (cases x) (auto simp: frag_end_def)

lemma frag_end_slash: "\<not> frag_end (CHR ''/'' # w)"
  by (simp add: frag_end_def dollar_def newline_def)

lemma frag_end_before_slash:
  assumes "CHR ''#'' \<notin> set y"
  shows "\<not> frag_end (y @ CHR ''/'' # w)"
proof (cases y)
  case Nil
  then show ?thesis by (simp add: frag_end_slash)
next
  case (Cons c cs)
  then have "c \<noteq> CHR ''#''" using assms by auto
  moreover have "\<not> dollar (c # cs @ CHR ''/'' # w)"
    by (simp add: dollar_def)
  ultimately show ?thesis
    using Cons by (simp add: frag_end_def)
qed

lemma starts_dot_git_append:
  assumes "startswith (y @ c # w) ''.git''" "c \<notin> set ''.git''"
  shows "\<exists>r. y = ''.git'' @ r"
proof -
  from assms show ?thesis
    apply (simp add: startswith_def)
    apply (cases y, simp)
    apply (rename_tac a1 y1, case_tac y1, simp)
    apply (rename_tac a2 y2, case_tac y2, simp)
    apply (rename_tac a3 y3, case_tac y3, simp)
    apply simp
    done
qed

lemma git_tail_before_slash:
  assumes "CHR ''#'' \<notin> set y"
  shows "\<not> git_tail (y @ CHR ''/'' # w)"
proof -
  have "\<not> frag_end (drop 4 (y @ CHR ''/'' # w))" if sw: "startswith (y @ CHR ''/'' # w) ''.git''"
  proof -
    obtain r where r: "y = ''.git'' @ r"
      using starts_dot_git_append [OF sw] by auto
    then have "CHR ''#'' \<notin> set r" using assms by auto
    then show ?thesis
      using frag_end_before_slash [of r w] r by simp
  qed
  then show ?thesis
    using frag_end_before_slash [OF assms, of w] by (auto simp: git_tail_def)
qed

lemma lazy_group_before_slash:
  assumes "CHR ''#'' \<notin> set y"
  shows "lazy_group acc (y @ CHR ''/'' # w) = None"
  using assms
proof (induction y arbitrary: acc)
  case Nil
  then show ?case
    using git_tail_before_slash [of "[]" w] by simp
next
  case (Cons c y)
  then show ?case
    using git_tail_before_slash [of "c # y" w] by simp
qed

lemma git_here_before_slash:
  assumes "CHR ''#'' \<notin> set y"
  shows "git_here (y @ CHR ''/'' # w) = None"
  using assms lazy_group_before_slash [of "tl y" _ w]
  by (cases y) auto

lemma git_search_skips:
  assumes "CHR ''#'' \<notin> set u"
  shows "git_search (u @ CHR ''/'' # w) = git_search (CHR ''/'' # w)"
  using assms
proof (induction u)
  case Nil
  then show ?case by simp
next
  case (Cons c u)
  then show ?case
    using git_here_before_slash [of u w] by simp
qed

lemma git_tail_suffix:
  assumes "fragment = [] \<or> fragment = CHR ''#'' # frag" "newline \<notin> set frag"
    and "CHR ''#'' \<notin> set x" "newline \<notin> set x"
  shows "git_tail (x @ fragment) \<longleftrightarrow> x = [] \<or> x = ''.git''"
proof (cases "x = []")
  case True
  then show ?thesis
    using frag_end_fragment [OF assms(1,2)] by (simp add: git_tail_def)
next
  case False
  note fe = frag_end_append [OF False assms(3,4), of fragment]
  show ?thesis
  proof (cases "startswith (x @ fragment) ''.git''")
    case False
    then have "x \<noteq> ''.git''" by (auto simp: startswith_def)
    with False fe \<open>x \<noteq> []\<close> show ?thesis by (simp add: git_tail_def)
  next
    case True
    have "\<exists>r. x = ''.git'' @ r"
    proof (cases fragment)
      case Nil
      with True have tk: "take (length ''.git'') x = ''.git''"
        unfolding startswith_def by simp
      have "x = take (length ''.git'') x @ drop (length ''.git'') x"
        by (rule append_take_drop_id [symmetric])
      then have "x = ''.git'' @ drop (length ''.git'') x"
        by (simp only: tk)
      then show ?thesis ..
    next
      case (Cons c f)
      then have "c = CHR ''#''" using assms(1) by auto
      then show ?thesis
        using starts_dot_git_append [of x c f] True Cons by simp
    qed
    then obtain r where r: "x = ''.git'' @ r" by auto
    show ?thesis
    proof (cases "r = []")
      case True
      then show ?thesis
        using r frag_end_fragment [OF assms(1,2)] by (simp add: git_tail_def startswith_def)
    next
      case False
      have "CHR ''#'' \<notin> set r" "newline \<notin> set r"
        using r assms(3,4) by auto
      from frag_end_append [OF False this, of fragment] fe r False show ?thesis
        by (simp add: git_tail_def)
    qed
  qed
qed

lemma lazy_group_dot_git:
  assumes "fragment = [] \<or> fragment = CHR ''#'' # frag" "newline \<notin> set frag"
    and "CHR ''#'' \<notin> set y" "newline \<notin> set y" "CHR ''/'' \<notin> set y"
  shows "lazy_group acc (y @ ''.git'' @ fragment) = Some (acc @ y)"
  using assms(3-5)
proof (induction y arbitrary: acc)
  case Nil
  have "git_tail (''.git'' @ fragment)"
    using git_tail_suffix [OF assms(1,2), of "''.git''"] by (simp add: newline_def)
  then show ?case by simp
next
  case (Cons c y)
  have "\<not> git_tail ((c # y @ ''.git'') @ fragment)"
    using git_tail_suffix [OF assms(1,2), of "c # y @ ''.git''"] Cons.prems
    by (simp add: newline_def)
  then show ?case
    using Cons by auto
qed

lemma lazy_group_plain:
  assumes "fragment = [] \<or> fragment = CHR ''#'' # frag" "newline \<notin> set frag"
    and "CHR ''#'' \<notin> set y" "newline \<notin> set y" "CHR ''/'' \<notin> set y"
    and "\<not> (\<exists>u. y = u @ ''.git'')"
  shows "lazy_group acc (y @ fragment) = Some (acc @ y)"
  using assms(3-6)
proof (induction y arbitrary: acc)
  case Nil
  have "git_tail fragment"
    using git_tail_suffix [OF assms(1,2), of "[]"] by simp
  then show ?case by (cases fragment) auto
next
  case (Cons c y)
  have "c # y \<noteq> [] @ ''.git''"
    using Cons.prems(4) by blast
  then have "\<not> git_tail ((c # y) @ fragment)"
    using git_tail_suffix [OF assms(1,2), of "c # y"] Cons.prems by simp
  moreover have "\<not> (\<exists>u. y = u @ ''.git'')"
  proof
    assume "\<exists>u. y = u @ ''.git''"
    then obtain u where "y = u @ ''.git''" ..
    then have "c # y = (c # u) @ ''.git''" by simp
    with Cons.prems(4) show False by blast
  qed
  ultimately show ?case
    using Cons by auto
qed


lemma git_search_final:
  assumes "CHR ''#'' \<notin> set pre"
  shows "git_search (''git+'' @ pre @ ''/'' @ final) =
           (case git_here final of Some g \<Rightarrow> Some g | None \<Rightarrow> git_search final)"
proof -
  have "CHR ''#'' \<notin> set (''git+'' @ pre)"
    using assms by simp
  from git_search_skips [OF this, of final] show ?thesis
    by simp
qed

lemma spec_name_git:
  "spec_name (''git+'' @ r) =
     (case git_search (''git+'' @ r) of Some g \<Rightarrow> g | None \<Rightarrow> ''git+'' @ r)"
  by (simp add: spec_name_def detect_package_type_def startswith_def split: option.splits)

lemma not_suffix_dot_git:
  assumes "drop (length y - 4) y \<noteq> ''.git''"
  shows "\<not> (\<exists>u. y = u @ ''.git'')"
  using assms by auto

lemma git_search_dot_git:
  assumes "CHR ''#'' \<notin> set pre" "stem \<noteq> []"
    and "CHR ''/'' \<notin> set stem" "CHR ''#'' \<notin> set stem" "newline \<notin> set stem"
    and "fragment = [] \<or> fragment = CHR ''#'' # frag" "newline \<notin> set frag"
  shows "git_search (''git+'' @ pre @ ''/'' @ stem @ ''.git'' @ fragment) = Some stem"
proof -
  obtain c cs where stem: "stem = c # cs"
    using assms(2) by (cases stem) auto
  have c: "c \<noteq> CHR ''/''" and cs: "CHR ''#'' \<notin> set cs" "newline \<notin> set cs" "CHR ''/'' \<notin> set cs"
    using assms(3-5) stem by auto
  have "git_here (stem @ ''.git'' @ fragment) = Some stem"
    using lazy_group_dot_git [OF assms(6,7) cs, of "[c]"] c stem by simp
  then show ?thesis
    using git_search_final [OF assms(1), of "stem @ ''.git'' @ fragment"] by simp
qed

lemma git_search_plain:
  assumes "CHR ''#'' \<notin> set pre" "stem \<noteq> []"
    and "CHR ''/'' \<notin> set stem" "CHR ''#'' \<notin> set stem" "newline \<notin> set stem"
    and "fragment = [] \<or> fragment = CHR ''#'' # frag" "newline \<notin> set frag"
    and "drop (length stem - 4) stem \<noteq> ''.git''"
  shows "git_search (''git+'' @ pre @ ''/'' @ stem @ fragment) = Some stem"
proof -
  obtain c cs where stem: "stem = c # cs"
    using assms(2) by (cases stem) auto
  have c: "c \<noteq> CHR ''/''" and cs: "CHR ''#'' \<notin> set cs" "newline \<notin> set cs" "CHR ''/'' \<notin> set cs"
    using assms(3-5) stem by auto
  have "\<not> (\<exists>u. cs = u @ ''.git'')"
  proof
    assume "\<exists>u. cs = u @ ''.git''"
    then obtain u where "cs = u @ ''.git''" ..
    then have "stem = (c # u) @ ''.git''" using stem by simp
    then show False using not_suffix_dot_git [OF assms(8)] by blast
  qed
  then have "git_here (stem @ fragment) = Some stem"
    using lazy_group_plain [OF assms(6,7) cs, of "[c]"] c stem by simp
  then show ?thesis
    using git_search_final [OF assms(1), of "stem @ fragment"] by simp
qed

text \<open>
  C8, as stated: for every spec that begins with \<open>git+\<close> the name is the final path
  segment of the URL without a trailing \<open>.git\<close> and without a trailing \<open>#fragment\<close>.
  Not for every such spec: after a trailing slash nothing matches and the name is the
  whole spec, and when the fragment follows a slash the name is the fragment itself.
\<close>

theorem git_name_is_not_always_the_last_segment:
  "extract_server_name ''git+https://github.com/user/repo/'' None
     = Inr ([], ''git+https://github.com/user/repo/'')
   \<and> extract_server_name ''git+https://github.com/user/repo.git/#v1.0.0'' None
     = Inr ([], ''#v1.0.0'')"
  by code_simp

text \<open>
  C8, amended: every spec that begins with \<open>git+\<close> is classified as version control,
  whatever follows. For a spec \<open>git+pre/stem\<close>, followed or not by \<open>.git\<close> and by
  \<open>#frag\<close>, where \<open>stem\<close> is not empty and has no slash, \<open>#\<close> or newline, \<open>pre\<close> has no
  \<open>#\<close> and \<open>frag\<close> no newline, the name is \<open>stem\<close>, the final path segment without
  \<open>.git\<close> and without the fragment (in the form without \<open>.git\<close>, provided \<open>stem\<close> does
  not itself end in \<open>.git\<close>). So \<open>git+https://github.com/user/repo.git#v1.0.0\<close> is
  version control, named \<open>repo\<close>.
\<close>

theorem git_spec_kind_and_name:
  "detect_package_type (''git+'' @ rest) = Git
   \<and> (CHR ''#'' \<notin> set pre \<and> stem \<noteq> [] \<and> CHR ''/'' \<notin> set stem \<and> CHR ''#'' \<notin> set stem
        \<and> newline \<notin> set stem \<and> (fragment = [] \<or> fragment = CHR ''#'' # frag)
        \<and> newline \<notin> set frag
      \<longrightarrow> extract_server_name (''git+'' @ pre @ ''/'' @ stem @ ''.git'' @ fragment) None
            = Inr ([], stem)
          \<and> (drop (length stem - 4) stem \<noteq> ''.git''
             \<longrightarrow> extract_server_name (''git+'' @ pre @ ''/'' @ stem @ fragment) None
                  = Inr ([], stem)))
   \<and> detect_package_type ''git+https://github.com/user/repo.git#v1.0.0'' = Git
   \<and> extract_server_name ''git+https://github.com/user/repo.git#v1.0.0'' None
       = Inr ([], ''repo'')"
proof -
  have kind: "detect_package_type (''git+'' @ r) = Git" for r
    by (simp add: detect_package_type_def startswith_def)
  have name: "extract_server_name (''git+'' @ pre @ ''/'' @ stem @ ''.git'' @ fragment) None
                = Inr ([], stem)
              \<and> (drop (length stem - 4) stem \<noteq> ''.git''
                 \<longrightarrow> extract_server_name (''git+'' @ pre @ ''/'' @ stem @ fragment) None
                      = Inr ([], stem))"
    if pre: "CHR ''#'' \<notin> set pre" and ne: "stem \<noteq> []"
      and st: "CHR ''/'' \<notin> set stem" "CHR ''#'' \<notin> set stem" "newline \<notin> set stem"
      and fr: "fragment = [] \<or> fragment = CHR ''#'' # frag" "newline \<notin> set frag"
  proof -
    have first: "extract_server_name (''git+'' @ pre @ ''/'' @ stem @ ''.git'' @ fragment) None
                = Inr ([], stem)"
      using git_search_dot_git [OF pre ne st fr]
        spec_name_git [of "pre @ ''/'' @ stem @ ''.git'' @ fragment"]
      by (simp add: extract_server_name_def)
    have "extract_server_name (''git+'' @ pre @ ''/'' @ stem @ fragment) None = Inr ([], stem)"
      if "drop (length stem - 4) stem \<noteq> ''.git''"
      using git_search_plain [OF pre ne st fr that]
        spec_name_git [of "pre @ ''/'' @ stem @ fragment"]
      by (simp add: extract_server_name_def)
    with first show ?thesis by blast
  qed
  have "extract_server_name ''git+https://github.com/user/repo.git#v1.0.0'' None
          = Inr ([], ''repo'')"
    by code_simp
  with kind [of rest] kind [of "''https://github.com/user/repo.git#v1.0.0''"] name
  show ?thesis
    by simp
qed

text \<open>
  The theorem of C8 at \<open>git+https://github.com/user/mcp-server-test\<close>, with and
  without \<open>.git\<close>, before the fragment \<open>#main\<close>.
\<close>

theorem git_spec_kind_and_name_witness:
  "extract_server_name ''git+https://github.com/user/mcp-server-test.git#main'' None
     = Inr ([], ''mcp-server-test'')
   \<and> extract_server_name ''git+https://github.com/user/mcp-server-test#main'' None
     = Inr ([], ''mcp-server-test'')"
  using git_spec_kind_and_name [of "[]" "''https://github.com/user''" "''mcp-server-test''"
      "''#main''" "''main''"]
  by (simp add: newline_def)

text \<open>
  C2: the spec \<open>https://github.com/user/repo/blob/main/my_server.py\<close> should be of the
  raw-hosted-file kind and be named \<open>my-server\<close>, as \<open>test_github_raw_url\<close> and
  \<open>test_github_raw_python_file\<close> assert. \<open>detect_package_type\<close> has no such kind: it
  answers \<open>pypi\<close>, and the name is the whole URL with its underscore turned into a
  hyphen.
\<close>

theorem hosted_blob_url_is_taken_for_pypi:
  "detect_package_type ''https://github.com/user/repo/blob/main/my_server.py'' = Pypi
   \<and> extract_server_name ''https://github.com/user/repo/blob/main/my_server.py'' None
       = Inr ([], ''https://github.com/user/repo/blob/main/my-server.py'')"
  by code_simp

section \<open>Updating an entry\<close>

text \<open>
  C1: a second update under the same name should keep the metadata of the first. Line
  115 replaces the whole entry before line 121 looks for \<open>_metadata\<close> in it, so the
  test of line 121 always succeeds and the metadata is computed afresh: after updates
  with \<open>pkg-a\<close> and then \<open>pkg-b\<close> the entry carries the metadata of \<open>pkg-b\<close>.
\<close>

theorem second_update_replaces_metadata:
  "bind (update_config ''srv'' ''pkg-a'' ''/opt/universal-bootstrap.sh'' None default_config)
     (update_config ''srv'' ''pkg-b'' ''/opt/universal-bootstrap.sh'' None)
   = Inr (JObj [(''mcpServers'', JObj [(''srv'',
       JObj [(''command'', JStr ''bash''),
             (''args'', JArr [JStr ''/opt/universal-bootstrap.sh'', JStr ''pkg-b'']),
             (''_metadata'',
              JObj [(''package_type'', JStr ''pypi''),
                    (''package_spec'', JStr ''pkg-b''),
                    (''generated_by'', JStr ''mcp_config.py''),
                    (''bootstrap_version'', JStr ''1.2.0'')])])])])"
  by code_simp

section \<open>Parsing the command line\<close>

text \<open>
  C5, as stated: a value-taking flag in last position is passed through with an
  undefined value and no argument failure. It is not: \<open>--name\<close> as the last token ends
  the run with \<open>Unknown argument: --name\<close> and exit status 1.
\<close>

theorem trailing_name_flag_exits:
  "parse_args ''/home/u/Library/Application Support/Claude/claude_desktop_config.json''
     [''pkg'', ''--name'']
   = ([Unknown_argument ''--name''], Inl 1)"
  by code_simp

text \<open>
  C5, amended: each of the three branches tests \<open>i + 1 < len(args)\<close>, so when the loop
  stands on the last token and that token is \<open>--name\<close>, \<open>--config\<close> or \<open>--args\<close>, it
  prints \<open>Unknown argument\<close> with the flag and exits with status 1; nothing is read
  past the end of the list. In particular a spec followed by such a flag alone is
  rejected.
\<close>

theorem trailing_flag_is_rejected:
  assumes "flag \<in> {''--name'', ''--config'', ''--args''}"
    and "i + 1 = length args"
    and "args ! i = flag"
  shows "parse_loop args i st = ([Unknown_argument flag], Inl 1)
         \<and> (spec \<noteq> ''--help'' \<and> spec \<noteq> ''-h''
            \<longrightarrow> parse_args default_path [spec, flag] = ([Unknown_argument flag], Inl 1))"
proof -
  have loop: "parse_loop xs j st' = ([Unknown_argument (xs ! j)], Inl 1)"
    if "j + 1 = length xs" for xs j st'
    using that by (subst parse_loop.simps) simp
  have "parse_loop args i st = ([Unknown_argument flag], Inl 1)"
    using loop [OF assms(2)] assms(3) by simp
  moreover have "parse_args default_path [spec, flag] = ([Unknown_argument flag], Inl 1)"
    if "spec \<noteq> ''--help''" "spec \<noteq> ''-h''"
  proof -
    have "flag \<noteq> ''--help''" "flag \<noteq> ''-h''"
      using assms(1) by auto
    moreover have "parse_loop [spec, flag] 1 st' = ([Unknown_argument flag], Inl 1)" for st'
      using loop [of 1 "[spec, flag]" st'] by simp
    ultimately show ?thesis
      using that by (simp add: parse_args_def)
  qed
  ultimately show ?thesis
    by blast
qed

theorem trailing_flag_is_rejected_witness:
  "parse_loop [''pkg'', ''--config''] 1
     \<lparr>server_name = None, config_file_name = None, server_args = []\<rparr>
   = ([Unknown_argument ''--config''], Inl 1)
   \<and> parse_args ''/home/u/config.json'' [''pkg'', ''--config'']
     = ([Unknown_argument ''--config''], Inl 1)"
  using trailing_flag_is_rejected [of "''--config''" 1 "[''pkg'', ''--config'']"
      "\<lparr>server_name = None, config_file_name = None, server_args = []\<rparr>"
      "''pkg''" "''/home/u/config.json''"]
  by simp

section \<open>Deriving an executable name\<close>













section \<open>Probing a local file\<close>














section \<open>Loading, updating and persisting the configuration\<close>

text \<open>
  On a JSON object whose \<open>mcpServers\<close> member is absent or is an object, the update
  succeeds and its result is known; on an array it raises. When the file exists, the
  load step only reads.
\<close>

lemma update_config_object:
  assumes "map_of kvs ''mcpServers'' = None \<and> servers = []
           \<or> map_of kvs ''mcpServers'' = Some (JObj servers)"
  shows "update_config name spec script sargs (JObj kvs) =
           Inr (JObj (AList.update ''mcpServers''
                  (JObj (AList.update name
                     (JObj [(''command'', JStr ''bash''),
                            (''args'', JArr (map JStr ([script, spec] @
                               (case sargs of None \<Rightarrow> [] | Some xs \<Rightarrow> xs)))),
                            (''_metadata'', metadata spec)])
                     servers))
                  kvs))"
proof -
  have entry: "server_entry script spec sargs =
     JObj [(''command'', JStr ''bash''),
           (''args'', JArr (map JStr ([script, spec] @
              (case sargs of None \<Rightarrow> [] | Some xs \<Rightarrow> xs))))]"
    by (cases sargs) (auto simp: server_entry_def Let_def)
  from assms show ?thesis
  proof
    assume "map_of kvs ''mcpServers'' = None \<and> servers = []"
    then show ?thesis
      by (simp add: update_config_def bind_def entry update_conv')
  next
    assume "map_of kvs ''mcpServers'' = Some (JObj servers)"
    then show ?thesis
      by (simp add: update_config_def bind_def entry update_conv')
  qed
qed

lemma update_config_not_object:
  "update_config name spec script sargs (JArr []) = Inl TypeError"
  by (simp add: update_config_def bind_def)

lemma seed_config_existing:
  "path_exists s config_file \<Longrightarrow> seed_config e config_file s = (Inr (), s)"
  by (simp add: seed_config_def)

lemma load_config_existing:
  "path_exists s config_file \<Longrightarrow> load_config e config_file s = (load_json e config_file s, s)"
  by (simp add: load_config_def seed_config_existing)

text \<open>
  C4, as stated: when the configuration file does not exist, the load step returns the
  seed document without touching storage, and the file appears only with the later
  persist. It does touch storage: lines 94 to 97 create the parent directories and write
  the seed document to the file before line 100 reads it.
\<close>

theorem load_writes_the_default_config:
  "load_config (quiet ''/opt/universal-bootstrap.sh'' ''tmpk3x9'') [''home'', ''u'', ''config.json'']
     \<lparr>files = Map.empty, dirs = {[]}\<rparr>
   = (Inr (JObj [(''mcpServers'', JObj [])]),
      \<lparr>files = [[''home'', ''u'', ''config.json''] \<mapsto> Doc (JObj [(''mcpServers'', JObj [])])],
       dirs = {[], [''home''], [''home'', ''u'']}\<rparr>)"
  by (auto simp: load_config_def seed_config_def path_exists_def quiet_def mkdir_parents_def
      ancestors_def above_def parent_def write_file_def load_json_def default_config_def
      upt_conv_Cons)

text \<open>
  C4, amended: when the configuration file does not exist and no call of the load
  step fails (creating the directories, writing the seed and reading it back all
  succeed, and no file stands where a directory above the configuration file is
  needed), the load step creates the directories above the file, writes the seed
  document \<open>{"mcpServers": {}}\<close> to the file and returns that document; every other
  file is as it was.
\<close>

theorem load_of_missing_config:
  assumes "\<not> path_exists s config_file"
    and "mkdir_fault e = None" "seed_fault e = None" "read_fault e = None"
    and "\<not> list_ex (\<lambda>q. files s q \<noteq> None) (ancestors (parent config_file))"
  shows "load_config e config_file s =
           (Inr default_config,
            s\<lparr>dirs := dirs s \<union> set (ancestors (parent config_file)),
              files := (files s)(config_file \<mapsto> Doc default_config)\<rparr>)"
  using assms
  by (simp add: load_config_def seed_config_def mkdir_parents_def write_file_def load_json_def
      ancestors_def list_ex_iff)

text \<open>
  The theorem of C4 in a directory that holds one other file.
\<close>

theorem load_of_missing_config_witness:
  "load_config (quiet ''/opt/universal-bootstrap.sh'' ''tmpk3x9'') [''u'', ''config.json'']
     \<lparr>files = [[''u'', ''notes.txt''] \<mapsto> Malformed ''hello''], dirs = {[], [''u'']}\<rparr>
   = (Inr default_config,
      \<lparr>files = [[''u'', ''notes.txt''] \<mapsto> Malformed ''hello'',
                [''u'', ''config.json''] \<mapsto> Doc default_config],
       dirs = {[], [''u'']}\<rparr>)"
proof -
  let ?s = "\<lparr>files = [[''u'', ''notes.txt''] \<mapsto> Malformed ''hello''], dirs = {[], [''u'']}\<rparr>"
  have a: "\<not> path_exists ?s [''u'', ''config.json'']"
    by (simp add: path_exists_def)
  have b: "\<not> list_ex (\<lambda>q. files ?s q \<noteq> None) (ancestors (parent [''u'', ''config.json'']))"
    by (simp add: ancestors_def above_def parent_def upt_conv_Cons)
  have c: "set (ancestors (parent [''u'', ''config.json''])) = {[], [''u'']}"
    by (auto simp: ancestors_def above_def parent_def upt_conv_Cons)
  show ?thesis
    using load_of_missing_config [OF a _ _ _ b, of "quiet ''/opt/universal-bootstrap.sh'' ''tmpk3x9''"] c
    by (simp add: quiet_def)
qed

text \<open>
  C6: persisting writes the whole document to a temporary file in the parent directory
  of the destination and then replaces the destination by one rename. Whenever the
  destination exists, as it does when line 130 is reached: when no call fails, the
  temporary name is free and the destination is not a directory, persisting succeeds,
  the destination holds the new document, whole, and the temporary name is gone; when
  the rename fails, the temporary file holds the whole document and the destination
  what it held; when the dump fails, the temporary file is truncated and the destination
  holds what it held; when the temporary file cannot be created, nothing changes. In
  every case the destination holds the new document if persisting succeeds and what it
  held if it fails, the exception is the fault that occurred, no file other than the
  destination and the temporary file changes, and \<open>create_or_update_config\<close> returns
  False and prints that exception.
\<close>

theorem persist_keeps_destination_whole:
  assumes "path_exists s config_file"
  shows "(tmp_fault e = None \<and> dump_fault e = None \<and> replace_fault e = None
           \<and> \<not> path_exists s (parent config_file @ [tmp_name e]) \<and> config_file \<notin> dirs s
          \<longrightarrow> persist e config_file d s
               = (Inr (), s\<lparr>files := (files s)(config_file \<mapsto> Doc d)\<rparr>))
         \<and> (tmp_fault e = None \<and> dump_fault e = None \<and> replace_fault e = Some x
             \<and> \<not> path_exists s (parent config_file @ [tmp_name e])
            \<longrightarrow> persist e config_file d s
                 = (Inl x, s\<lparr>files := (files s)(parent config_file @ [tmp_name e] \<mapsto> Doc d)\<rparr>))
         \<and> (tmp_fault e = None \<and> dump_fault e = Some x
             \<and> \<not> path_exists s (parent config_file @ [tmp_name e])
            \<longrightarrow> persist e config_file d s
                 = (Inl x,
                    s\<lparr>files := (files s)(parent config_file @ [tmp_name e] \<mapsto> Truncated d)\<rparr>))
         \<and> (tmp_fault e = Some x \<longrightarrow> persist e config_file d s = (Inl x, s))
         \<and> (case persist e config_file d s of
            (Inr u, s') \<Rightarrow>
              files s' config_file = Some (Doc d)
              \<and> tmp_fault e = None \<and> dump_fault e = None \<and> replace_fault e = None
          | (Inl x, s') \<Rightarrow>
              files s' config_file = files s config_file
              \<and> (tmp_fault e = Some x \<or> dump_fault e = Some x \<or> replace_fault e = Some x
                  \<or> x = OSError ''FileExistsError'' \<or> x = OSError ''IsADirectoryError''))
         \<and> (\<forall>p. p \<noteq> config_file \<and> p \<noteq> parent config_file @ [tmp_name e]
                \<longrightarrow> files (snd (persist e config_file d s)) p = files s p)
         \<and> parent (parent config_file @ [tmp_name e]) = parent config_file
         \<and> (load_config e config_file s0 = (Inr c, s)
             \<and> update_config name spec (bootstrap_script e) sargs c = Inr d
             \<and> fst (persist e config_file d s) = Inl x
            \<longrightarrow> create_or_update_config e name spec config_file sargs s0
                 = (False, [Error_updating_config_file config_file x],
                    snd (persist e config_file d s)))"
proof -
  let ?tmp = "parent config_file @ [tmp_name e]"
  have ne: "?tmp \<noteq> config_file" if "\<not> path_exists s ?tmp"
    using that assms by auto
  have success: "persist e config_file d s
               = (Inr (), s\<lparr>files := (files s)(config_file \<mapsto> Doc d)\<rparr>)"
    if "tmp_fault e = None" "dump_fault e = None" "replace_fault e = None"
      "\<not> path_exists s ?tmp" "config_file \<notin> dirs s"
  proof -
    have "files s ?tmp = None"
      using that(4) by (auto simp: path_exists_def split: option.splits)
    then have "(files s)(?tmp := None) = files s"
      by (simp add: fun_upd_idem)
    then have "replace_file ?tmp config_file (write_file ?tmp (Doc d) s)
               = s\<lparr>files := (files s)(config_file \<mapsto> Doc d)\<rparr>"
      using ne [OF that(4)] by (simp add: replace_file_def write_file_def)
    then show ?thesis
      using that by (simp add: persist_def Let_def write_file_def)
  qed
  have at_rename: "persist e config_file d s
                 = (Inl x, s\<lparr>files := (files s)(?tmp \<mapsto> Doc d)\<rparr>)"
    if "tmp_fault e = None" "dump_fault e = None" "replace_fault e = Some x"
      "\<not> path_exists s ?tmp"
    using that by (simp add: persist_def Let_def write_file_def)
  have at_dump: "persist e config_file d s
                 = (Inl x, s\<lparr>files := (files s)(?tmp \<mapsto> Truncated d)\<rparr>)"
    if "tmp_fault e = None" "dump_fault e = Some x" "\<not> path_exists s ?tmp"
    using that by (simp add: persist_def Let_def write_file_def)
  have at_create: "persist e config_file d s = (Inl x, s)" if "tmp_fault e = Some x"
    using that by (simp add: persist_def Let_def)
  have first: "case persist e config_file d s of
            (Inr u, s') \<Rightarrow>
              files s' config_file = Some (Doc d)
              \<and> tmp_fault e = None \<and> dump_fault e = None \<and> replace_fault e = None
          | (Inl x, s') \<Rightarrow>
              files s' config_file = files s config_file
              \<and> (tmp_fault e = Some x \<or> dump_fault e = Some x \<or> replace_fault e = Some x
                  \<or> x = OSError ''FileExistsError'' \<or> x = OSError ''IsADirectoryError'')"
    using ne
    by (auto simp: persist_def Let_def write_file_def replace_file_def
        split: option.splits)
  have frame: "files (snd (persist e config_file d s)) p = files s p"
    if "p \<noteq> config_file" "p \<noteq> ?tmp" for p
    using that
    by (auto simp: persist_def Let_def write_file_def replace_file_def split: option.splits)
  have place: "parent ?tmp = parent config_file"
    by (simp add: parent_def)
  have report: "create_or_update_config e name spec config_file sargs s0
                 = (False, [Error_updating_config_file config_file x],
                    snd (persist e config_file d s))"
    if "load_config e config_file s0 = (Inr c, s)"
      "update_config name spec (bootstrap_script e) sargs c = Inr d"
      "fst (persist e config_file d s) = Inl x"
    using that
    by (cases "persist e config_file d s") (simp add: create_or_update_config_def)
  from success at_rename at_dump at_create first frame place report show ?thesis
    by blast
qed

text \<open>
  The theorem of C6 on a configuration file holding the seed document: when nothing
  fails the file holds the new document and no temporary file is left; when the disk
  is full at the dump, the run reports the error, the temporary file is truncated and
  the configuration file still holds the seed document.
\<close>

theorem persist_keeps_destination_whole_witness:
  "persist (quiet ''/opt/universal-bootstrap.sh'' ''tmpk3x9'') [''u'', ''config.json'']
     (JObj [(''mcpServers'', JObj [(''srv'',
        JObj [(''command'', JStr ''bash''),
              (''args'', JArr [JStr ''/opt/universal-bootstrap.sh'', JStr ''pkg'']),
              (''_metadata'', metadata ''pkg'')])])])
     \<lparr>files = [[''u'', ''config.json''] \<mapsto> Doc default_config], dirs = {[], [''u'']}\<rparr>
   = (Inr (),
      \<lparr>files = [[''u'', ''config.json''] \<mapsto>
         Doc (JObj [(''mcpServers'', JObj [(''srv'',
           JObj [(''command'', JStr ''bash''),
                 (''args'', JArr [JStr ''/opt/universal-bootstrap.sh'', JStr ''pkg'']),
                 (''_metadata'', metadata ''pkg'')])])])],
       dirs = {[], [''u'']}\<rparr>)
   \<and> create_or_update_config
     ((quiet ''/opt/universal-bootstrap.sh'' ''tmpk3x9'')
        \<lparr>dump_fault := Some (OSError ''No space left on device'')\<rparr>)
     ''srv'' ''pkg'' [''u'', ''config.json''] None
     \<lparr>files = [[''u'', ''config.json''] \<mapsto> Doc default_config], dirs = {[], [''u'']}\<rparr>
   = (False,
      [Error_updating_config_file [''u'', ''config.json''] (OSError ''No space left on device'')],
      \<lparr>files = [[''u'', ''config.json''] \<mapsto> Doc default_config,
                [''u'', ''tmpk3x9''] \<mapsto>
         Truncated (JObj [(''mcpServers'', JObj [(''srv'',
           JObj [(''command'', JStr ''bash''),
                 (''args'', JArr [JStr ''/opt/universal-bootstrap.sh'', JStr ''pkg'']),
                 (''_metadata'', metadata ''pkg'')])])])],
       dirs = {[], [''u'']}\<rparr>)"
proof -
  let ?q = "quiet ''/opt/universal-bootstrap.sh'' ''tmpk3x9''"
  let ?e = "?q\<lparr>dump_fault := Some (OSError ''No space left on device'')\<rparr>"
  let ?s = "\<lparr>files = [[''u'', ''config.json''] \<mapsto> Doc default_config], dirs = {[], [''u'']}\<rparr>"
  let ?d = "JObj [(''mcpServers'', JObj [(''srv'',
           JObj [(''command'', JStr ''bash''),
                 (''args'', JArr [JStr ''/opt/universal-bootstrap.sh'', JStr ''pkg'']),
                 (''_metadata'', metadata ''pkg'')])])]"
  have ex: "path_exists ?s [''u'', ''config.json'']"
    by (simp add: path_exists_def)
  have fresh: "\<not> path_exists ?s (parent [''u'', ''config.json''] @ [tmp_name ?q])"
    "\<not> path_exists ?s (parent [''u'', ''config.json''] @ [tmp_name ?e])"
    by (simp_all add: path_exists_def parent_def quiet_def)
  have nd: "[''u'', ''config.json''] \<notin> dirs ?s"
    by simp
  have ld: "load_config ?e [''u'', ''config.json''] ?s = (Inr default_config, ?s)"
    by (simp add: load_config_existing [OF ex] load_json_def quiet_def)
  have up: "update_config ''srv'' ''pkg'' (bootstrap_script ?e) None default_config = Inr ?d"
    using update_config_object [of "[(''mcpServers'', JObj [])]" "[]" "''srv''" "''pkg''"
        "''/opt/universal-bootstrap.sh''" None]
    by (simp add: default_config_def quiet_def)
  have ok: "persist ?q [''u'', ''config.json''] ?d ?s
            = (Inr (), ?s\<lparr>files := (files ?s)([''u'', ''config.json''] \<mapsto> Doc ?d)\<rparr>)"
    using fresh(1) nd
      persist_keeps_destination_whole [where s = ?s and config_file = "[''u'', ''config.json'']"
        and e = ?q and d = ?d, OF ex]
    by (simp add: quiet_def)
  have pf: "persist ?e [''u'', ''config.json''] ?d ?s
            = (Inl (OSError ''No space left on device''),
               ?s\<lparr>files := (files ?s)([''u'', ''tmpk3x9''] \<mapsto> Truncated ?d)\<rparr>)"
    using fresh(2)
      persist_keeps_destination_whole [where s = ?s and config_file = "[''u'', ''config.json'']"
        and e = ?e and d = ?d and x = "OSError ''No space left on device''", OF ex]
    by (simp add: quiet_def parent_def)
  have run: "create_or_update_config ?e ''srv'' ''pkg'' [''u'', ''config.json''] None ?s
     = (False,
        [Error_updating_config_file [''u'', ''config.json''] (OSError ''No space left on device'')],
        ?s\<lparr>files := (files ?s)([''u'', ''tmpk3x9''] \<mapsto> Truncated ?d)\<rparr>)"
    using ld up pf
      persist_keeps_destination_whole [where s = ?s and config_file = "[''u'', ''config.json'']"
        and e = ?e and d = ?d and ?s0.0 = ?s and c = default_config and name = "''srv''"
        and spec = "''pkg''" and sargs = None and x = "OSError ''No space left on device''",
        OF ex]
    by simp
  have eq1: "?s\<lparr>files := (files ?s)([''u'', ''config.json''] \<mapsto> Doc ?d)\<rparr>
             = \<lparr>files = [[''u'', ''config.json''] \<mapsto> Doc ?d], dirs = {[], [''u'']}\<rparr>"
    by simp
  have eq2: "?s\<lparr>files := (files ?s)([''u'', ''tmpk3x9''] \<mapsto> Truncated ?d)\<rparr>
             = \<lparr>files = [[''u'', ''config.json''] \<mapsto> Doc default_config,
                         [''u'', ''tmpk3x9''] \<mapsto> Truncated ?d],
                dirs = {[], [''u'']}\<rparr>"
    by simp
  show ?thesis
    using ok run unfolding eq1 eq2 by simp
qed

text \<open>
  C7, as stated: for every document that parses, load, update and persist give a
  document with the new entry. A file holding the JSON array \<open>[]\<close> parses, but the
  update raises a type error: the run returns False and the file is as it was.
\<close>

theorem array_document_is_not_updated:
  "create_or_update_config (quiet ''/opt/universal-bootstrap.sh'' ''tmpk3x9'')
     ''srv'' ''pkg'' [''u'', ''config.json''] None
     \<lparr>files = [[''u'', ''config.json''] \<mapsto> Doc (JArr [])], dirs = {[], [''u'']}\<rparr>
   = (False, [Error_updating_config_file [''u'', ''config.json''] TypeError],
      \<lparr>files = [[''u'', ''config.json''] \<mapsto> Doc (JArr [])], dirs = {[], [''u'']}\<rparr>)"
proof -
  let ?s = "\<lparr>files = [[''u'', ''config.json''] \<mapsto> Doc (JArr [])], dirs = {[], [''u'']}\<rparr>"
  have ex: "path_exists ?s [''u'', ''config.json'']"
    by (simp add: path_exists_def)
  show ?thesis
    by (simp add: create_or_update_config_def load_config_existing [OF ex] load_json_def
        quiet_def update_config_not_object)
qed

text \<open>
  C7, amended: for every configuration file that parses to a JSON object whose
  \<open>mcpServers\<close> member is absent or is itself an object, every server name and every
  launch record, when no call fails, the run succeeds and loading the file again gives
  a document in which the name is mapped to the record (command, arguments and
  metadata), every other server entry is unchanged and every other top-level member is
  unchanged; no other file changes.
\<close>

theorem update_round_trip:
  assumes "files s config_file = Some (Doc (JObj kvs))"
    and "map_of kvs ''mcpServers'' = None \<and> servers = []
         \<or> map_of kvs ''mcpServers'' = Some (JObj servers)"
    and "read_fault e = None" "tmp_fault e = None" "dump_fault e = None"
      "replace_fault e = None"
    and "\<not> path_exists s (parent config_file @ [tmp_name e])" "config_file \<notin> dirs s"
    and "entry = JObj [(''command'', JStr ''bash''),
                       (''args'', JArr (map JStr ([bootstrap_script e, spec] @
                          (case sargs of None \<Rightarrow> [] | Some xs \<Rightarrow> xs)))),
                       (''_metadata'', metadata spec)]"
    and "servers' = AList.update name entry servers"
    and "kvs' = AList.update ''mcpServers'' (JObj servers') kvs"
    and "s' = s\<lparr>files := (files s)(config_file \<mapsto> Doc (JObj kvs'))\<rparr>"
  shows "create_or_update_config e name spec config_file sargs s = (True, [], s')
         \<and> load_json e config_file s' = Inr (JObj kvs')
         \<and> map_of kvs' ''mcpServers'' = Some (JObj servers')
         \<and> map_of servers' name = Some entry
         \<and> (\<forall>k. k \<noteq> name \<longrightarrow> map_of servers' k = map_of servers k)
         \<and> (\<forall>k. k \<noteq> ''mcpServers'' \<longrightarrow> map_of kvs' k = map_of kvs k)
         \<and> (\<forall>p. p \<noteq> config_file \<longrightarrow> files s' p = files s p)"
proof -
  let ?tmp = "parent config_file @ [tmp_name e]"
  have ex: "path_exists s config_file"
    using assms(1) by (simp add: path_exists_def)
  have ld: "load_config e config_file s = (Inr (JObj kvs), s)"
    using assms(1,3) by (simp add: load_config_existing [OF ex] load_json_def)
  have up: "update_config name spec (bootstrap_script e) sargs (JObj kvs) = Inr (JObj kvs')"
    using update_config_object [OF assms(2), of name spec "bootstrap_script e" sargs]
      assms(9-11) by simp
  have tmp_none: "files s ?tmp = None" and tmp_ne: "?tmp \<noteq> config_file"
    using assms(1,7) by (auto simp: path_exists_def split: option.splits)
  have "(files s)(?tmp := None) = files s"
    using tmp_none by (simp add: fun_upd_idem)
  then have fin: "replace_file ?tmp config_file (write_file ?tmp (Doc (JObj kvs')) s) = s'"
    using tmp_ne assms(12) by (simp add: replace_file_def write_file_def)
  have ps: "persist e config_file (JObj kvs') s = (Inr (), s')"
    using assms(4-8) fin by (simp add: persist_def Let_def write_file_def)
  have run: "create_or_update_config e name spec config_file sargs s = (True, [], s')"
    by (simp add: create_or_update_config_def ld up ps)
  have again: "load_json e config_file s' = Inr (JObj kvs')"
    using assms(3,12) by (simp add: load_json_def)
  have maps: "map_of kvs' ''mcpServers'' = Some (JObj servers')"
    "map_of servers' name = Some entry"
    "\<forall>k. k \<noteq> name \<longrightarrow> map_of servers' k = map_of servers k"
    "\<forall>k. k \<noteq> ''mcpServers'' \<longrightarrow> map_of kvs' k = map_of kvs k"
    using assms(10,11) by (simp_all add: update_conv')
  have frame: "\<forall>p. p \<noteq> config_file \<longrightarrow> files s' p = files s p"
    using assms(12) by simp
  from run again maps frame show ?thesis
    by blast
qed

text \<open>
  The theorem of C7 on a file with one server and one other top-level member.
\<close>

theorem update_round_trip_witness:
  "create_or_update_config (quiet ''/opt/universal-bootstrap.sh'' ''tmpk3x9'')
     ''new-server'' ''new-package'' [''u'', ''config.json''] None
     \<lparr>files = [[''u'', ''config.json''] \<mapsto>
        Doc (JObj [(''theme'', JStr ''dark''),
                   (''mcpServers'', JObj [(''existing-server'',
                      JObj [(''command'', JStr ''bash''),
                            (''args'', JArr [JStr ''old-command''])])])])],
      dirs = {[], [''u'']}\<rparr>
   = (True, [],
      \<lparr>files = [[''u'', ''config.json''] \<mapsto>
        Doc (JObj [(''theme'', JStr ''dark''),
                   (''mcpServers'', JObj [(''existing-server'',
                      JObj [(''command'', JStr ''bash''),
                            (''args'', JArr [JStr ''old-command''])]),
                     (''new-server'',
                      JObj [(''command'', JStr ''bash''),
                            (''args'', JArr [JStr ''/opt/universal-bootstrap.sh'',
                                             JStr ''new-package'']),
                            (''_metadata'', metadata ''new-package'')])])])],
      dirs = {[], [''u'']}\<rparr>)"
proof -
  let ?e = "quiet ''/opt/universal-bootstrap.sh'' ''tmpk3x9''"
  let ?servers = "[(''existing-server'',
                      JObj [(''command'', JStr ''bash''),
                            (''args'', JArr [JStr ''old-command''])])]"
  let ?kvs = "[(''theme'', JStr ''dark''), (''mcpServers'', JObj ?servers)]"
  let ?s = "\<lparr>files = [[''u'', ''config.json''] \<mapsto> Doc (JObj ?kvs)], dirs = {[], [''u'']}\<rparr>"
  have h1: "files ?s [''u'', ''config.json''] = Some (Doc (JObj ?kvs))"
    by simp
  have h2: "map_of ?kvs ''mcpServers'' = None \<and> ?servers = []
            \<or> map_of ?kvs ''mcpServers'' = Some (JObj ?servers)"
    by simp
  have h3: "read_fault ?e = None" "tmp_fault ?e = None" "dump_fault ?e = None"
    "replace_fault ?e = None"
    by (simp_all add: quiet_def)
  have h7: "\<not> path_exists ?s (parent [''u'', ''config.json''] @ [tmp_name ?e])"
    by (simp add: path_exists_def parent_def quiet_def)
  have h8: "[''u'', ''config.json''] \<notin> dirs ?s"
    by simp
  show ?thesis
    using update_round_trip [OF h1 h2 h3 h7 h8 refl refl refl refl,
        where spec = "''new-package''" and sargs = None and name = "''new-server''"]
    by (simp add: quiet_def)
qed

end
